theory Spec2Isabelle
  imports Main
begin

section \<open>JellyTV manifest updater (build/update\_manifest.py)\<close>

text \<open>
  The script reads thirteen environment variables, loads a JSON manifest, merges one plugin
  descriptor and one version record into it and writes the manifest back through a
  temporary file. The development below embeds the script function by function:
  \<^item> the values \<open>json.load\<close> produces, with Python's dictionaries as association lists
    (insertion order is what \<open>json.dump\<close> prints);
  \<^item> the exceptions of the script as values of \<open>exn\<close>, a computation being \<open>exn + 'a\<close>;
  \<^item> what the process prints and asks of the file system as a list of calls, each with
    its outcome, next to the result.
  Strings are lists of characters; the script compares them and puts them together, and
  does nothing else with them.
\<close>

subsection \<open>Values and exceptions\<close>

text \<open>
  A Python \<open>float\<close> is a dyadic rational, an infinity or a NaN (\<open>json.load\<close> accepts the
  literals \<open>Infinity\<close>, \<open>-Infinity\<close> and \<open>NaN\<close>). The script never computes with numbers.
\<close>

datatype pyfloat = Dyadic int int | Infinity bool | NaN

datatype json =
    JNull
  | JBool bool
  | JInt int
  | JFloat pyfloat
  | JStr string
  | JArr "json list"
  | JObj "(string \<times> json) list"

type_synonym dict = "(string \<times> json) list"

text \<open>
  \<open>SystemExit n\<close> is \<open>sys.exit(n)\<close>. \<open>AttributeError\<close> and \<open>TypeError\<close> are what the
  merge raises on a value of the wrong shape; the others are what opening and parsing the
  manifest file can raise.
\<close>

datatype exn =
    SystemExit nat
  | AttributeError
  | TypeError
  | JSONDecodeError
  | UnicodeDecodeError
  | RecursionError
  | OSError

subsection \<open>Dictionary operations\<close>

text \<open>\<open>d.get(k)\<close>: the value, or \<open>None\<close>.\<close>

definition dict_get :: "dict \<Rightarrow> string \<Rightarrow> json option" where
  "dict_get d k = map_of d k"

text \<open>
  \<open>d[k] = v\<close>: an existing key keeps its place and takes the new value, a new key goes
  to the end.
\<close>

fun dict_set :: "string \<Rightarrow> json \<Rightarrow> dict \<Rightarrow> dict" where
  "dict_set k v [] = [(k, v)]"
| "dict_set k v (p # ps) = (if fst p = k then (k, v) # ps else p # dict_set k v ps)"

text \<open>\<open>d.update(other)\<close>: one assignment per item of \<open>other\<close>, in its order.\<close>

fun dict_update :: "dict \<Rightarrow> dict \<Rightarrow> dict" where
  "dict_update d [] = d"
| "dict_update d ((k, v) # other) = dict_update (dict_set k v d) other"

text \<open>
  \<open>x.get(k)\<close> on a value that came out of \<open>json.load\<close>: only a dictionary has the
  method, every other value raises \<open>AttributeError\<close>.
\<close>

fun py_get :: "json \<Rightarrow> string \<Rightarrow> exn + json option" where
  "py_get (JObj d) k = Inr (dict_get d k)"
| "py_get _ k = Inl AttributeError"

text \<open>
  \<open>for v in x\<close>: a list gives its elements, a string its characters (each a string of
  length one), a dictionary its keys; the other values are not iterable.
\<close>

fun py_iter :: "json \<Rightarrow> exn + json list" where
  "py_iter (JArr xs) = Inr xs"
| "py_iter (JStr s) = Inr (map (\<lambda>c. JStr [c]) s)"
| "py_iter (JObj d) = Inr (map (\<lambda>p. JStr (fst p)) d)"
| "py_iter _ = Inl TypeError"

subsection \<open>The submitted descriptor and version record\<close>

record plugin_fields =
  name :: string
  guid :: string
  overview :: string
  description :: string
  category :: string
  owner :: string
  imageUrl :: string

record version_fields =
  version :: string
  targetAbi :: string
  sourceUrl :: string
  checksum :: string
  timestamp :: string

text \<open>The dictionary literals of lines 36--44 and 46--52.\<close>

definition plugin :: "plugin_fields \<Rightarrow> dict" where
  "plugin p =
     [(''name'', JStr (name p)),
      (''guid'', JStr (guid p)),
      (''overview'', JStr (overview p)),
      (''description'', JStr (description p)),
      (''category'', JStr (category p)),
      (''owner'', JStr (owner p)),
      (''imageUrl'', JStr (imageUrl p))]"

definition version_entry :: "version_fields \<Rightarrow> dict" where
  "version_entry v =
     [(''version'', JStr (version v)),
      (''targetAbi'', JStr (targetAbi v)),
      (''sourceUrl'', JStr (sourceUrl v)),
      (''checksum'', JStr (checksum v)),
      (''timestamp'', JStr (timestamp v))]"

subsection \<open>The merge (lines 56--68)\<close>

text \<open>
  The comprehension of lines 59--63 over the already iterated sequence: each element is
  asked for its \<open>version\<close> and kept unless that is the submitted string. A value of
  another type, or no value, is never equal to a string.
\<close>

fun existing :: "string \<Rightarrow> json list \<Rightarrow> exn + json list" where
  "existing ver [] = Inr []"
| "existing ver (v # vs) =
     (case py_get v ''version'' of
        Inl e \<Rightarrow> Inl e
      | Inr r \<Rightarrow>
          (case existing ver vs of
             Inl e \<Rightarrow> Inl e
           | Inr rest \<Rightarrow> Inr (if r \<noteq> Some (JStr ver) then v # rest else rest)))"

text \<open>
  The body of the \<open>if\<close> (lines 58--64) on the matched entry: the descriptor overwrite
  (\<open>update\<close> is a method of dictionaries only), then the new \<open>versions\<close> list, read from
  the overwritten entry with \<open>[]\<close> as the default.
\<close>

fun update_entry :: "plugin_fields \<Rightarrow> version_fields \<Rightarrow> json \<Rightarrow> exn + json" where
  "update_entry p v (JObj entry) =
     (let entry1 = dict_update entry (plugin p) in
      case py_iter (case dict_get entry1 ''versions'' of None \<Rightarrow> JArr [] | Some x \<Rightarrow> x) of
        Inl e \<Rightarrow> Inl e
      | Inr vs \<Rightarrow>
          (case existing (version v) vs of
             Inl e \<Rightarrow> Inl e
           | Inr ex \<Rightarrow>
               Inr (JObj (dict_set ''versions'' (JArr (JObj (version_entry v) # ex)) entry1))))"
| "update_entry p v _ = Inl AttributeError"

text \<open>
  The \<open>for\<close> loop: \<open>Some\<close> of the manifest after the \<open>break\<close>, or \<open>None\<close> when the loop
  ran to its end (the \<open>else\<close> branch is then taken).
\<close>

fun scan :: "plugin_fields \<Rightarrow> version_fields \<Rightarrow> json list \<Rightarrow> exn + json list option" where
  "scan p v [] = Inr None"
| "scan p v (entry # rest) =
     (case py_get entry ''guid'' of
        Inl e \<Rightarrow> Inl e
      | Inr g \<Rightarrow>
          if g = Some (JStr (guid p)) then
            (case update_entry p v entry of
               Inl e \<Rightarrow> Inl e
             | Inr entry' \<Rightarrow> Inr (Some (entry' # rest)))
          else
            (case scan p v rest of
               Inl e \<Rightarrow> Inl e
             | Inr None \<Rightarrow> Inr None
             | Inr (Some rest') \<Rightarrow> Inr (Some (entry # rest'))))"

text \<open>
  Lines 56--68: the loop, and its \<open>else\<close> branch, which gives the submitted descriptor a
  one-element \<open>versions\<close> list and appends it.
\<close>

definition merge_manifest ::
  "plugin_fields \<Rightarrow> version_fields \<Rightarrow> json list \<Rightarrow> exn + json list" where
  "merge_manifest p v manifest =
     (case scan p v manifest of
        Inl e \<Rightarrow> Inl e
      | Inr (Some manifest') \<Rightarrow> Inr manifest'
      | Inr None \<Rightarrow>
          Inr (manifest @ [JObj (dict_set ''versions'' (JArr [JObj (version_entry v)]) (plugin p))]))"

subsection \<open>Paths\<close>

text \<open>
  A \<open>pathlib\<close> path on POSIX: the root (empty, one slash or two) and the parts. The
  constructor splits at the slashes and drops empty parts and single dots.
\<close>

record path =
  root :: string
  parts :: "string list"

fun split_slash :: "string \<Rightarrow> string list" where
  "split_slash [] = [[]]"
| "split_slash (c # cs) =
     (if c = CHR ''/'' then [] # split_slash cs
      else (case split_slash cs of [] \<Rightarrow> [[c]] | x # xs \<Rightarrow> (c # x) # xs))"

definition Path :: "string \<Rightarrow> path" where
  "Path s =
     \<lparr>root = (let n = length (takeWhile (\<lambda>c. c = CHR ''/'') s)
              in if n = 0 then [] else if n = 2 then ''//'' else ''/''),
      parts = filter (\<lambda>x. x \<noteq> [] \<and> x \<noteq> ''.'') (split_slash s)\<rparr>"

text \<open>\<open>path.name\<close>, \<open>path.parent\<close> and \<open>path / s\<close>.\<close>

definition path_name :: "path \<Rightarrow> string" where
  "path_name p = (if parts p = [] then [] else last (parts p))"

definition path_parent :: "path \<Rightarrow> path" where
  "path_parent p = (if parts p = [] then p else p\<lparr>parts := butlast (parts p)\<rparr>)"

definition joinpath :: "path \<Rightarrow> string \<Rightarrow> path" where
  "joinpath p s =
     (let q = Path s in if root q = [] then p\<lparr>parts := parts p @ parts q\<rparr> else q)"

subsection \<open>The process: output, file system and exit\<close>

text \<open>
  The calls the process makes on the outside, in the order it makes them. \<open>PrintStderr s\<close>
  is \<open>print(s, file=sys.stderr)\<close>; \<open>Mkdir\<close> is \<open>mkdir(parents=True, exist_ok=True)\<close>;
  \<open>OpenWrite\<close> is \<open>open("w")\<close>, which creates or truncates; \<open>Dump p x n\<close> is
  \<open>json.dump(x, fh, indent=n)\<close> on the file opened at \<open>p\<close>; \<open>Replace a b\<close> is
  \<open>os.replace(a, b)\<close>.
\<close>

datatype effect =
    PrintStderr string
  | Mkdir path
  | OpenWrite path
  | Dump path json nat
  | Write path string
  | Close path
  | Replace path path

text \<open>
  A call on the file system returns or raises, and which of the two is not the script's
  to decide (a parent that is a regular file, a directory in the way, no permission, a
  full disk). \<open>Done c\<close> is the call \<open>c\<close> that returned, \<open>Failed c e\<close> the call that raised
  \<open>e\<close>. A computation is the calls so far with their outcomes, and an exception or a
  value.
\<close>

datatype event = Done effect | Failed effect exn

type_synonym 'a proc = "event list \<times> (exn + 'a)"

definition bind :: "'a proc \<Rightarrow> ('a \<Rightarrow> 'b proc) \<Rightarrow> 'b proc" where
  "bind m f =
     (case m of
        (out, Inl e) \<Rightarrow> (out, Inl e)
      | (out, Inr a) \<Rightarrow> (case f a of (out', r) \<Rightarrow> (out @ out', r)))"

definition lift :: "exn + 'a \<Rightarrow> 'a proc" where
  "lift r = ([], r)"

text \<open>
  The operating system's answer to each call: \<open>None\<close> when the call returns, the exception
  when it raises.
\<close>

type_synonym os = "effect \<Rightarrow> exn option"

definition call :: "os \<Rightarrow> effect \<Rightarrow> unit proc" where
  "call os c = (case os c of None \<Rightarrow> ([Done c], Inr ()) | Some e \<Rightarrow> ([Failed c e], Inl e))"

text \<open>Lines 12--17. A variable set to the empty string is set.\<close>

definition env :: "(string \<rightharpoonup> string) \<Rightarrow> string \<Rightarrow> string proc" where
  "env environ nm =
     (case environ nm of
        None \<Rightarrow>
          ([Done (PrintStderr (''Environment variable '' @ nm @ '' is required''))],
           Inl (SystemExit 6))
      | Some val \<Rightarrow> ([], Inr val))"

text \<open>
  What the file system answers for the manifest path: nothing there, or something of some
  size on which \<open>path.open\<close> followed by \<open>json.load\<close> raises or gives a value.
\<close>

datatype fnode = Absent | Present nat "exn + json"

text \<open>Lines 20--30. The \<open>except\<close> clause names one class of exception.\<close>

fun load_manifest :: "(path \<Rightarrow> fnode) \<Rightarrow> path \<Rightarrow> exn + json list" where
  "load_manifest fs p =
     (case fs p of
        Absent \<Rightarrow> Inr []
      | Present st_size loaded \<Rightarrow>
          if st_size = 0 then Inr []
          else
            (case loaded of
               Inl JSONDecodeError \<Rightarrow> Inr []
             | Inl e \<Rightarrow> Inl e
             | Inr (JArr data) \<Rightarrow> Inr data
             | Inr data \<Rightarrow> Inr [data]))"

text \<open>
  The \<open>with\<close> statement of lines 72--74: the file is opened, the body runs, and the file is
  closed whether the body returned or raised. When the body raised and the close returns,
  the body's exception goes on; an exception of the close goes on in either case.
\<close>

definition with_open :: "os \<Rightarrow> path \<Rightarrow> unit proc \<Rightarrow> unit proc" where
  "with_open os f body =
     bind (call os (OpenWrite f)) (\<lambda>_.
       case body of
         (out, Inl e) \<Rightarrow>
           (case call os (Close f) of
              (out', Inl e') \<Rightarrow> (out @ out', Inl e')
            | (out', Inr _) \<Rightarrow> (out @ out', Inl e))
       | (out, Inr _) \<Rightarrow> bind (out, Inr ()) (\<lambda>_. call os (Close f)))"

text \<open>Lines 70--75. The first call that raises ends the run.\<close>

definition persist :: "os \<Rightarrow> path \<Rightarrow> json list \<Rightarrow> unit proc" where
  "persist os p manifest =
     (let tmp_path = joinpath (path_parent p) (path_name p @ ''.tmp'') in
      bind (call os (Mkdir (path_parent tmp_path))) (\<lambda>_.
      bind (with_open os tmp_path
              (bind (call os (Dump tmp_path (JArr manifest) 2)) (\<lambda>_.
               call os (Write tmp_path [CHR 0x0A])))) (\<lambda>_.
      call os (Replace tmp_path p))))"

text \<open>Lines 33--75.\<close>

definition main :: "os \<Rightarrow> (string \<rightharpoonup> string) \<Rightarrow> (path \<Rightarrow> fnode) \<Rightarrow> unit proc" where
  "main os environ fs =
     bind (env environ ''MANIFEST_PATH'') (\<lambda>manifest_path.
     bind (env environ ''NAME'') (\<lambda>a1.
     bind (env environ ''GUID'') (\<lambda>a2.
     bind (env environ ''OVERVIEW'') (\<lambda>a3.
     bind (env environ ''DESCRIPTION'') (\<lambda>a4.
     bind (env environ ''CATEGORY'') (\<lambda>a5.
     bind (env environ ''OWNER'') (\<lambda>a6.
     bind (env environ ''IMAGE_URL'') (\<lambda>a7.
     bind (env environ ''VERSION'') (\<lambda>b1.
     bind (env environ ''TARGET_ABI'') (\<lambda>b2.
     bind (env environ ''DOWNLOAD_URL'') (\<lambda>b3.
     bind (env environ ''CHECKSUM'') (\<lambda>b4.
     bind (env environ ''TIMESTAMP'') (\<lambda>b5.
       let p = \<lparr>name = a1, guid = a2, overview = a3, description = a4,
                category = a5, owner = a6, imageUrl = a7\<rparr>;
           v = \<lparr>version = b1, targetAbi = b2, sourceUrl = b3, checksum = b4,
                timestamp = b5\<rparr>
       in
         bind (lift (load_manifest fs (Path manifest_path))) (\<lambda>manifest.
         bind (lift (merge_manifest p v manifest)) (\<lambda>manifest'.
         persist os (Path manifest_path) manifest')))))))))))))))"

subsection \<open>A file system to run the events on\<close>

text \<open>
  Files by path. The content of a file is what was written to it, piece by piece:
  \<open>Encoded x n\<close> is the text \<open>json.dump\<close> prints for \<open>x\<close> at indentation \<open>n\<close> (the
  encoder is Python's and is not modelled further), \<open>Text s\<close> is \<open>s\<close> itself, and
  \<open>Incomplete\<close> marks a content that is cut at an unknown point. A write that returned
  appends to the file's content, and an \<open>os.replace\<close> that returned moved the source over
  the target in one step. A dump, write or close that raised leaves the file it was on
  incomplete; a \<open>mkdir\<close>, \<open>open\<close> or \<open>os.replace\<close> that raised changed no file.
\<close>

datatype piece = Encoded json nat | Text string | Incomplete

type_synonym files = "path \<rightharpoonup> piece list"

definition content :: "files \<Rightarrow> path \<Rightarrow> piece list" where
  "content fl f = (case fl f of None \<Rightarrow> [] | Some c \<Rightarrow> c)"

fun exec :: "event \<Rightarrow> files \<Rightarrow> files" where
  "exec (Done (PrintStderr s)) fl = fl"
| "exec (Done (Mkdir d)) fl = fl"
| "exec (Done (OpenWrite f)) fl = fl(f \<mapsto> [])"
| "exec (Done (Dump f x n)) fl = fl(f \<mapsto> content fl f @ [Encoded x n])"
| "exec (Done (Write f s)) fl = fl(f \<mapsto> content fl f @ [Text s])"
| "exec (Done (Close f)) fl = fl"
| "exec (Done (Replace a b)) fl = (fl(b := fl a))(a := None)"
| "exec (Failed (Dump f x n) e) fl = fl(f \<mapsto> content fl f @ [Incomplete])"
| "exec (Failed (Write f s) e) fl = fl(f \<mapsto> content fl f @ [Incomplete])"
| "exec (Failed (Close f) e) fl = fl(f \<mapsto> content fl f @ [Incomplete])"
| "exec (Failed c e) fl = fl"

text \<open>The file systems a run goes through, the starting one first.\<close>

fun states :: "files \<Rightarrow> event list \<Rightarrow> files list" where
  "states fl [] = [fl]"
| "states fl (ev # evs) = fl # states (exec ev fl) evs"

text \<open>The call of an event.\<close>

fun event_call :: "event \<Rightarrow> effect" where
  "event_call (Done c) = c"
| "event_call (Failed c e) = c"

subsection \<open>Vocabulary of the properties\<close>

text \<open>
  A manifest is a list of plugin entries and an entry is a dictionary: \<open>load_manifest\<close> is
  annotated \<open>list[dict]\<close>. \<open>other_plugin g x\<close> says that the entry \<open>x\<close> is a dictionary
  whose \<open>guid\<close> is not the string \<open>g\<close> (it may have none); the loop passes over exactly
  these entries.
\<close>

definition is_dict :: "json \<Rightarrow> bool" where
  "is_dict x = (case x of JObj d \<Rightarrow> True | _ \<Rightarrow> False)"

definition other_plugin :: "string \<Rightarrow> json \<Rightarrow> bool" where
  "other_plugin g x = (case x of JObj d \<Rightarrow> dict_get d ''guid'' \<noteq> Some (JStr g) | _ \<Rightarrow> False)"

text \<open>The \<open>version\<close> of a version record, when it is a dictionary that has one.\<close>

definition version_value :: "json \<Rightarrow> json option" where
  "version_value r = (case r of JObj d \<Rightarrow> dict_get d ''version'' | _ \<Rightarrow> None)"

text \<open>An entry's \<open>versions\<close> field is well formed: missing, or a list of dictionaries.\<close>

definition versions_ok :: "dict \<Rightarrow> bool" where
  "versions_ok d =
     (case dict_get d ''versions'' of
        None \<Rightarrow> True
      | Some (JArr vs) \<Rightarrow> list_all is_dict vs
      | Some _ \<Rightarrow> False)"

text \<open>
  The version list of an entry, and the invariant of the data model: the version values
  that occur in it occur once.
\<close>

definition versions_of :: "json \<Rightarrow> json list" where
  "versions_of x =
     (case x of
        JObj d \<Rightarrow> (case dict_get d ''versions'' of Some (JArr vs) \<Rightarrow> vs | _ \<Rightarrow> [])
      | _ \<Rightarrow> [])"

definition unique_versions :: "json \<Rightarrow> bool" where
  "unique_versions x = distinct (List.map_filter version_value (versions_of x))"


subsection \<open>Example data\<close>

text \<open>
  A submission of version \<open>1.0\<close> of the plugin \<open>g1\<close>, and a manifest \<open>[A, B, C]\<close> whose
  middle entry is that plugin, with an extra key and the versions \<open>[v2, v1]\<close>.
\<close>

definition sub_plugin :: plugin_fields where
  "sub_plugin =
     \<lparr>name = ''JellyTV'', guid = ''g1'', overview = ''ov'', description = ''de'',
      category = ''tv'', owner = ''me'', imageUrl = ''img''\<rparr>"

definition sub_version :: version_fields where
  "sub_version =
     \<lparr>version = ''1.0'', targetAbi = ''10.9'', sourceUrl = ''url'', checksum = ''new'',
      timestamp = ''now''\<rparr>"

definition rec_v1 :: json where
  "rec_v1 = JObj [(''version'', JStr ''1.0''), (''checksum'', JStr ''old'')]"

definition rec_v2 :: json where
  "rec_v2 = JObj [(''version'', JStr ''2.0''), (''checksum'', JStr ''two'')]"

definition rec_unversioned :: json where
  "rec_unversioned = JObj [(''checksum'', JStr ''none'')]"

definition entry_A :: json where
  "entry_A = JObj [(''guid'', JStr ''g0''), (''name'', JStr ''A'')]"

definition dict_B :: dict where
  "dict_B =
     [(''guid'', JStr ''g1''), (''name'', JStr ''B''), (''stars'', JInt 5),
      (''versions'', JArr [rec_v2, rec_v1])]"

definition entry_C :: json where
  "entry_C = JObj [(''guid'', JStr ''g2''), (''name'', JStr ''C'')]"

text \<open>The same plugin with no \<open>versions\<close> key, and with a record that has no \<open>version\<close>.\<close>

definition dict_bare :: dict where
  "dict_bare = [(''guid'', JStr ''g1'')]"

definition dict_mixed :: dict where
  "dict_mixed = [(''guid'', JStr ''g1''), (''versions'', JArr [rec_unversioned, rec_v1])]"

text \<open>
  A file system with one thing in it, at \<open>manifest.json\<close>. \<open>Present 1 (Inl UnicodeDecodeError)\<close>
  is a file of one byte that is not UTF-8 (the byte \<open>0xFF\<close>, say): \<open>json.load\<close> reads the
  file before it parses, and the read raises.
\<close>

definition one_file :: "fnode \<Rightarrow> path \<Rightarrow> fnode" where
  "one_file node q = (if q = Path ''manifest.json'' then node else Absent)"

text \<open>An environment with every variable set, and the same without \<open>CHECKSUM\<close>.\<close>

definition full_environ :: "string \<rightharpoonup> string" where
  "full_environ =
     map_of
       [(''MANIFEST_PATH'', ''dist/manifest.json''), (''NAME'', ''JellyTV''), (''GUID'', ''g1''),
        (''OVERVIEW'', ''ov''), (''DESCRIPTION'', ''de''), (''CATEGORY'', ''tv''),
        (''OWNER'', ''me''), (''IMAGE_URL'', ''img''), (''VERSION'', ''1.0''),
        (''TARGET_ABI'', ''10.9''), (''DOWNLOAD_URL'', ''url''), (''CHECKSUM'', ''new''),
        (''TIMESTAMP'', ''now'')]"


definition no_fs :: "path \<Rightarrow> fnode" where
  "no_fs q = Absent"

text \<open>
  An operating system on which every call returns, and one on which \<open>mkdir\<close> raises (a
  parent of the directory is a regular file, say).
\<close>

definition willing_os :: os where
  "willing_os c = None"

definition refusing_mkdir :: os where
  "refusing_mkdir c = (case c of Mkdir d \<Rightarrow> Some OSError | _ \<Rightarrow> None)"

text \<open>The entry of the example submission, written out.\<close>

definition new_entry :: json where
  "new_entry =
     JObj
       [(''name'', JStr ''JellyTV''), (''guid'', JStr ''g1''), (''overview'', JStr ''ov''),
        (''description'', JStr ''de''), (''category'', JStr ''tv''), (''owner'', JStr ''me''),
        (''imageUrl'', JStr ''img''),
        (''versions'',
         JArr [JObj [(''version'', JStr ''1.0''), (''targetAbi'', JStr ''10.9''),
                     (''sourceUrl'', JStr ''url''), (''checksum'', JStr ''new''),
                     (''timestamp'', JStr ''now'')]])]"

definition old_files :: files where
  "old_files = [Path ''dist/manifest.json'' \<mapsto> [Text ''[]'']]"

section \<open>Dictionaries\<close>

lemma dict_get_set: "dict_get (dict_set k v d) k' = (if k' = k then Some v else dict_get d k')"
  by (induction d) (auto simp: dict_get_def)

lemma dict_set_same: "dict_get d k = Some v \<Longrightarrow> dict_set k v d = d"
  by (induction d) (auto simp: dict_get_def split: if_splits)

lemma keys_dict_set:
  "map fst (dict_set k v d) = (if k \<in> set (map fst d) then map fst d else map fst d @ [k])"
  by (induction d) auto

lemma take_keys_dict_set: "take (length d) (map fst (dict_set k v d)) = map fst d"
  by (simp add: keys_dict_set)

lemma length_dict_set: "length d \<le> length (dict_set k v d)"
  by (induction d) auto

text \<open>An update never moves or removes a key that was there.\<close>

lemma take_keys_dict_update: "take (length d) (map fst (dict_update d other)) = map fst d"
proof (induction other arbitrary: d)
  case Nil
  show ?case by simp
next
  case (Cons kv other)
  obtain k v where kv: "kv = (k, v)" by (cases kv)
  have "take (length d) (map fst (dict_update (dict_set k v d) other))
      = take (length d) (take (length (dict_set k v d)) (map fst (dict_update (dict_set k v d) other)))"
    using length_dict_set [of d k v] by (simp add: min_def)
  also have "\<dots> = take (length d) (map fst (dict_set k v d))"
    by (simp only: Cons.IH)
  also have "\<dots> = map fst d" by (rule take_keys_dict_set)
  finally show ?case by (simp add: kv)
qed

lemma dict_update_same:
  "\<forall>(k, v) \<in> set other. dict_get d k = Some v \<Longrightarrow> dict_update d other = d"
  by (induction other arbitrary: d) (auto simp: dict_set_same)

text \<open>The descriptor overwrite sets its seven keys and touches no other.\<close>

lemma plugin_get_versions:
  "dict_get (dict_update d (plugin p)) ''versions'' = dict_get d ''versions''"
  by (simp add: dict_get_set plugin_def)

lemma plugin_get_other:
  "k \<notin> {''name'', ''guid'', ''overview'', ''description'', ''category'', ''owner'', ''imageUrl''} \<Longrightarrow>
   dict_get (dict_update d (plugin p)) k = dict_get d k"
  by (simp add: dict_get_set plugin_def)

lemma plugin_get_fields:
  "dict_get (dict_update d (plugin p)) ''name'' = Some (JStr (name p))"
  "dict_get (dict_update d (plugin p)) ''guid'' = Some (JStr (guid p))"
  "dict_get (dict_update d (plugin p)) ''overview'' = Some (JStr (overview p))"
  "dict_get (dict_update d (plugin p)) ''description'' = Some (JStr (description p))"
  "dict_get (dict_update d (plugin p)) ''category'' = Some (JStr (category p))"
  "dict_get (dict_update d (plugin p)) ''owner'' = Some (JStr (owner p))"
  "dict_get (dict_update d (plugin p)) ''imageUrl'' = Some (JStr (imageUrl p))"
  by (simp_all add: dict_get_set plugin_def)

lemma plugin_set_versions: "dict_set ''versions'' x (plugin p) = plugin p @ [(''versions'', x)]"
  by (simp add: plugin_def)

lemma new_entry_guid:
  "dict_get (plugin p @ [(''versions'', x)]) ''guid'' = Some (JStr (guid p))"
  by (simp add: plugin_def dict_get_def)

lemma version_value_entry: "version_value (JObj (version_entry v)) = Some (JStr (version v))"
  by (simp add: version_value_def version_entry_def dict_get_def)

section \<open>The version filter\<close>

lemma existing_filter:
  "\<forall>r \<in> set vs. is_dict r \<Longrightarrow>
   existing ver vs = Inr (filter (\<lambda>r. version_value r \<noteq> Some (JStr ver)) vs)"
proof (induction vs)
  case Nil
  show ?case by simp
next
  case (Cons r vs)
  then obtain d where "r = JObj d" by (cases r) (auto simp: is_dict_def)
  with Cons show ?case by (simp add: version_value_def)
qed

text \<open>The comprehension returns only when every element is a dictionary.\<close>

lemma existing_Inr:
  "existing ver vs = Inr ex \<Longrightarrow>
   (\<forall>r \<in> set vs. is_dict r) \<and> ex = filter (\<lambda>r. version_value r \<noteq> Some (JStr ver)) vs"
proof (induction vs arbitrary: ex)
  case Nil
  then show ?case by simp
next
  case (Cons r vs)
  then show ?case
    by (cases r) (auto simp: is_dict_def version_value_def split: sum.splits if_splits)
qed

lemma py_iter_dicts:
  assumes "py_iter x = Inr vs" and "\<forall>r \<in> set vs. is_dict r"
  shows "vs = [] \<or> x = JArr vs"
proof (cases x)
  case (JStr s)
  with assms show ?thesis by (cases s) (auto simp: is_dict_def)
next
  case (JObj d)
  with assms show ?thesis by (cases d) (auto simp: is_dict_def)
qed (use assms in auto)

lemma map_filter_Cons_Some:
  "f x = Some y \<Longrightarrow> List.map_filter f (x # xs) = y # List.map_filter f xs"
  by (simp add: List.map_filter_def)

lemma set_map_filter: "set (List.map_filter f xs) = {y. \<exists>x \<in> set xs. f x = Some y}"
  by (induction xs) (auto simp: List.map_filter_def)

lemma distinct_map_filter_filter:
  "distinct (List.map_filter f xs) \<Longrightarrow> distinct (List.map_filter f (filter P xs))"
proof (induction xs)
  case Nil
  show ?case by simp
next
  case (Cons x xs)
  show ?case
  proof (cases "f x")
    case None
    with Cons show ?thesis by (simp add: List.map_filter_def)
  next
    case (Some y)
    with Cons.prems have y: "y \<notin> set (List.map_filter f xs)"
      and d: "distinct (List.map_filter f xs)"
      by (simp_all add: map_filter_Cons_Some)
    from y have "y \<notin> set (List.map_filter f (filter P xs))"
      by (auto simp: set_map_filter)
    with Cons.IH [OF d] Some show ?thesis
      by (simp add: map_filter_Cons_Some)
  qed
qed

section \<open>The matched entry\<close>

lemma update_entry_absent:
  "dict_get d ''versions'' = None \<Longrightarrow>
   update_entry p v (JObj d) =
     Inr (JObj (dict_set ''versions'' (JArr [JObj (version_entry v)]) (dict_update d (plugin p))))"
  by (simp add: plugin_get_versions)

lemma update_entry_list:
  "dict_get d ''versions'' = Some (JArr vs) \<Longrightarrow> \<forall>r \<in> set vs. is_dict r \<Longrightarrow>
   update_entry p v (JObj d) =
     Inr (JObj (dict_set ''versions''
       (JArr (JObj (version_entry v) # filter (\<lambda>r. version_value r \<noteq> Some (JStr (version v))) vs))
       (dict_update d (plugin p))))"
  by (simp add: plugin_get_versions existing_filter)

text \<open>What a successful update looked at and what it returns.\<close>

lemma update_entry_shape:
  assumes "update_entry p v x = Inr x'"
  shows "\<exists>d vs ex. x = JObj d
     \<and> py_iter (case dict_get d ''versions'' of None \<Rightarrow> JArr [] | Some y \<Rightarrow> y) = Inr vs
     \<and> existing (version v) vs = Inr ex
     \<and> x' = JObj (dict_set ''versions'' (JArr (JObj (version_entry v) # ex))
                    (dict_update d (plugin p)))"
proof (cases x)
  case (JObj d)
  with assms show ?thesis
    by (auto simp: plugin_get_versions Let_def split: sum.splits)
qed (use assms in simp_all)

declare update_entry.simps [simp del]

lemma update_entry_ok:
  "versions_ok d \<Longrightarrow>
   \<exists>vs'. update_entry p v (JObj d) =
     Inr (JObj (dict_set ''versions'' (JArr vs') (dict_update d (plugin p))))"
proof (cases "dict_get d ''versions''")
  case None
  then show ?thesis using update_entry_absent by blast
next
  case (Some x)
  assume ok: "versions_ok d"
  with Some obtain vs where x: "x = JArr vs" and all: "\<forall>r \<in> set vs. is_dict r"
    by (cases x) (auto simp: versions_ok_def list_all_iff)
  from Some x all show ?thesis using update_entry_list by blast
qed

lemma update_entry_guid:
  assumes "update_entry p v x = Inr x'"
  shows "py_get x' ''guid'' = Inr (Some (JStr (guid p)))"
  using update_entry_shape [OF assms] by (auto simp: dict_get_set plugin_get_fields)

text \<open>Updating the updated entry again changes nothing.\<close>

lemma update_entry_idem:
  assumes "update_entry p v x = Inr x'"
  shows "update_entry p v x' = Inr x'"
proof -
  from update_entry_shape [OF assms] obtain d vs ex where
    ex: "existing (version v) vs = Inr ex"
    and x': "x' = JObj (dict_set ''versions'' (JArr (JObj (version_entry v) # ex))
                    (dict_update d (plugin p)))"
    by blast
  define d1 where "d1 = dict_set ''versions'' (JArr (JObj (version_entry v) # ex))
                    (dict_update d (plugin p))"
  have fields: "\<forall>(k, w) \<in> set (plugin p). dict_get d1 k = Some w"
    unfolding d1_def by (simp add: plugin_def dict_get_set)
  have same: "dict_update d1 (plugin p) = d1"
    by (rule dict_update_same [OF fields])
  have vers: "dict_get d1 ''versions'' = Some (JArr (JObj (version_entry v) # ex))"
    unfolding d1_def by (simp add: dict_get_set)
  from existing_Inr [OF ex] have dicts: "\<forall>r \<in> set ex. is_dict r"
    and keep: "filter (\<lambda>r. version_value r \<noteq> Some (JStr (version v))) ex = ex"
    by auto
  have "existing (version v) (JObj (version_entry v) # ex) = Inr ex"
    using existing_filter [OF dicts, of "version v"] keep version_value_entry [of v]
    by (simp add: version_value_def)
  then have "update_entry p v (JObj d1) = Inr (JObj d1)"
    by (simp add: update_entry.simps same vers dict_set_same)
  then show ?thesis by (simp add: x' d1_def)
qed

lemma new_entry_idem:
  "update_entry p v (JObj (plugin p @ [(''versions'', JArr [JObj (version_entry v)])])) =
     Inr (JObj (plugin p @ [(''versions'', JArr [JObj (version_entry v)])]))"
proof -
  have none: "dict_get (plugin p) ''versions'' = None"
    by (simp add: plugin_def dict_get_def)
  have "\<forall>(k, w) \<in> set (plugin p). dict_get (plugin p) k = Some w"
    by (simp add: plugin_def dict_get_def)
  then have same: "dict_update (plugin p) (plugin p) = plugin p"
    by (rule dict_update_same)
  have "update_entry p v (JObj (plugin p)) =
      Inr (JObj (plugin p @ [(''versions'', JArr [JObj (version_entry v)])]))"
    by (simp add: update_entry_absent [OF none] same plugin_set_versions)
  then show ?thesis by (rule update_entry_idem)
qed

lemma update_entry_unique:
  assumes u: "update_entry p v x = Inr x'" and inv: "unique_versions x"
  shows "unique_versions x'"
proof -
  from update_entry_shape [OF u] obtain d vs ex where
    x: "x = JObj d"
    and it: "py_iter (case dict_get d ''versions'' of None \<Rightarrow> JArr [] | Some y \<Rightarrow> y) = Inr vs"
    and ex: "existing (version v) vs = Inr ex"
    and x': "x' = JObj (dict_set ''versions'' (JArr (JObj (version_entry v) # ex))
                    (dict_update d (plugin p)))"
    by blast
  from existing_Inr [OF ex] have dicts: "\<forall>r \<in> set vs. is_dict r"
    and exf: "ex = filter (\<lambda>r. version_value r \<noteq> Some (JStr (version v))) vs"
    by auto
  have "distinct (List.map_filter version_value vs)"
    using py_iter_dicts [OF it dicts]
  proof
    assume "vs = []"
    then show ?thesis by (simp add: List.map_filter_def)
  next
    assume "(case dict_get d ''versions'' of None \<Rightarrow> JArr [] | Some y \<Rightarrow> y) = JArr vs"
    then have "vs = [] \<or> dict_get d ''versions'' = Some (JArr vs)"
      by (auto split: option.splits)
    then have "vs = [] \<or> versions_of x = vs" by (auto simp: versions_of_def x)
    with inv show ?thesis by (auto simp: unique_versions_def List.map_filter_def)
  qed
  then have d: "distinct (List.map_filter version_value ex)"
    unfolding exf by (rule distinct_map_filter_filter)
  have n: "JStr (version v) \<notin> set (List.map_filter version_value ex)"
    by (auto simp: set_map_filter exf)
  have "versions_of x' = JObj (version_entry v) # ex"
    by (simp add: x' versions_of_def dict_get_set)
  with d n show ?thesis
    by (simp add: unique_versions_def version_value_entry)
qed

section \<open>The loop\<close>

text \<open>The loop passes over the entries of other plugins.\<close>

lemma scan_skip:
  "\<forall>x \<in> set pre. other_plugin (guid p) x \<Longrightarrow>
   scan p v (pre @ rest) =
     (case scan p v rest of
        Inl e \<Rightarrow> Inl e
      | Inr None \<Rightarrow> Inr None
      | Inr (Some rest') \<Rightarrow> Inr (Some (pre @ rest')))"
proof (induction pre)
  case Nil
  show ?case by (simp split: sum.splits option.splits)
next
  case (Cons x pre)
  then obtain d where "x = JObj d" "dict_get d ''guid'' \<noteq> Some (JStr (guid p))"
    by (cases x) (auto simp: other_plugin_def)
  with Cons show ?case by (simp split: sum.splits option.splits)
qed

lemma scan_None: "scan p v m = Inr None \<longleftrightarrow> (\<forall>x \<in> set m. other_plugin (guid p) x)"
proof (induction m)
  case Nil
  show ?case by simp
next
  case (Cons x m)
  then show ?case
    by (cases x) (auto simp: other_plugin_def split: sum.splits option.splits)
qed

lemma scan_shape:
  "scan p v m = Inr (Some m') \<Longrightarrow>
   \<exists>pre x x' post. m = pre @ x # post \<and> m' = pre @ x' # post
     \<and> (\<forall>y \<in> set pre. other_plugin (guid p) y)
     \<and> py_get x ''guid'' = Inr (Some (JStr (guid p)))
     \<and> update_entry p v x = Inr x'"
proof (induction m arbitrary: m')
  case Nil
  then show ?case by simp
next
  case (Cons a m)
  from Cons.prems obtain g where g: "py_get a ''guid'' = Inr g"
    by (cases "py_get a ''guid''") auto
  show ?case
  proof (cases "g = Some (JStr (guid p))")
    case True
    with Cons.prems g obtain a' where "update_entry p v a = Inr a'" "m' = a' # m"
      by (auto split: sum.splits)
    with g True have "a # m = [] @ a # m \<and> m' = [] @ a' # m
        \<and> (\<forall>y \<in> set []. other_plugin (guid p) y)
        \<and> py_get a ''guid'' = Inr (Some (JStr (guid p)))
        \<and> update_entry p v a = Inr a'"
      by simp
    then show ?thesis by blast
  next
    case False
    with Cons.prems g obtain r where r: "scan p v m = Inr (Some r)" "m' = a # r"
      by (auto split: sum.splits option.splits)
    from Cons.IH [OF r(1)] obtain pre x x' post where
      s: "m = pre @ x # post" "r = pre @ x' # post"
         "\<forall>y \<in> set pre. other_plugin (guid p) y"
         "py_get x ''guid'' = Inr (Some (JStr (guid p)))"
         "update_entry p v x = Inr x'"
      by blast
    from g False have "other_plugin (guid p) a"
      by (cases a) (auto simp: other_plugin_def)
    with s r(2) have "a # m = (a # pre) @ x # post \<and> m' = (a # pre) @ x' # post
        \<and> (\<forall>y \<in> set (a # pre). other_plugin (guid p) y)
        \<and> py_get x ''guid'' = Inr (Some (JStr (guid p)))
        \<and> update_entry p v x = Inr x'"
      by simp
    then show ?thesis by blast
  qed
qed

lemma scan_idem:
  assumes "scan p v m = Inr (Some m')"
  shows "scan p v m' = Inr (Some m')"
proof -
  from scan_shape [OF assms] obtain pre x x' post where
    s: "m' = pre @ x' # post" "\<forall>y \<in> set pre. other_plugin (guid p) y"
       "update_entry p v x = Inr x'"
    by blast
  have "scan p v (x' # post) = Inr (Some (x' # post))"
    by (simp add: update_entry_guid [OF s(3)] update_entry_idem [OF s(3)])
  then show ?thesis by (simp add: s(1) scan_skip [OF s(2)])
qed

section \<open>The merge\<close>

text \<open>
  An entry that is not a dictionary has no \<open>get\<close>: the loop raises when it reaches one,
  and nothing is written.
\<close>

lemma merge_not_dict: "\<not> is_dict x \<Longrightarrow> merge_manifest p v (x # rest) = Inl AttributeError"
  by (cases x) (simp_all add: merge_manifest_def is_dict_def)

lemma merge_match:
  assumes "\<forall>x \<in> set pre. other_plugin (guid p) x"
    and "dict_get d ''guid'' = Some (JStr (guid p))"
  shows "merge_manifest p v (pre @ JObj d # post) =
     (case update_entry p v (JObj d) of
        Inl e \<Rightarrow> Inl e
      | Inr entry' \<Rightarrow> Inr (pre @ entry' # post))"
  using assms by (simp add: merge_manifest_def scan_skip split: sum.splits)

lemma merge_cases:
  assumes "merge_manifest p v m = Inr m1"
  shows "(scan p v m = Inr None
            \<and> m1 = m @ [JObj (plugin p @ [(''versions'', JArr [JObj (version_entry v)])])])
       \<or> scan p v m = Inr (Some m1)"
  using assms
  by (auto simp: merge_manifest_def plugin_set_versions split: sum.splits option.splits)

lemma merge_twice:
  assumes "merge_manifest p v m = Inr m1"
  shows "merge_manifest p v m1 = Inr m1"
  using merge_cases [OF assms]
proof
  assume a: "scan p v m = Inr None
      \<and> m1 = m @ [JObj (plugin p @ [(''versions'', JArr [JObj (version_entry v)])])]"
  then have others: "\<forall>x \<in> set m. other_plugin (guid p) x" by (simp add: scan_None)
  have "scan p v m1 = Inr (Some m1)"
    using a by (simp add: scan_skip [OF others] new_entry_guid new_entry_idem)
  then show ?thesis by (simp add: merge_manifest_def)
next
  assume "scan p v m = Inr (Some m1)"
  then have "scan p v m1 = Inr (Some m1)" by (rule scan_idem)
  then show ?thesis by (simp add: merge_manifest_def)
qed

text \<open>After a merge the manifest has an entry for the plugin, led by the new record.\<close>

lemma merged_entry:
  assumes "merge_manifest p v m = Inr m1"
  shows "\<exists>pre d post ex. m1 = pre @ JObj d # post
     \<and> (\<forall>x \<in> set pre. other_plugin (guid p) x)
     \<and> dict_get d ''guid'' = Some (JStr (guid p))
     \<and> dict_get d ''versions'' = Some (JArr (JObj (version_entry v) # ex))
     \<and> (\<forall>r \<in> set ex. version_value r \<noteq> Some (JStr (version v)))"
  using merge_cases [OF assms]
proof
  assume a: "scan p v m = Inr None
      \<and> m1 = m @ [JObj (plugin p @ [(''versions'', JArr [JObj (version_entry v)])])]"
  then have others: "\<forall>x \<in> set m. other_plugin (guid p) x" by (simp add: scan_None)
  have "m1 = m @ JObj (plugin p @ [(''versions'', JArr [JObj (version_entry v)])]) # []
     \<and> (\<forall>x \<in> set m. other_plugin (guid p) x)
     \<and> dict_get (plugin p @ [(''versions'', JArr [JObj (version_entry v)])]) ''guid''
         = Some (JStr (guid p))
     \<and> dict_get (plugin p @ [(''versions'', JArr [JObj (version_entry v)])]) ''versions''
         = Some (JArr (JObj (version_entry v) # []))
     \<and> (\<forall>r \<in> set []. version_value r \<noteq> Some (JStr (version v)))"
    using a others by (simp add: new_entry_guid) (simp add: plugin_def dict_get_def)
  then show ?thesis by blast
next
  assume "scan p v m = Inr (Some m1)"
  from scan_shape [OF this] obtain pre x x' post where
    s: "m1 = pre @ x' # post" "\<forall>y \<in> set pre. other_plugin (guid p) y"
       "update_entry p v x = Inr x'"
    by blast
  from update_entry_shape [OF s(3)] obtain d vs ex where
    ex: "existing (version v) vs = Inr ex"
    and x': "x' = JObj (dict_set ''versions'' (JArr (JObj (version_entry v) # ex))
                    (dict_update d (plugin p)))"
    by blast
  from existing_Inr [OF ex] have "\<forall>r \<in> set ex. version_value r \<noteq> Some (JStr (version v))"
    by simp
  with s x' have "m1 = pre @ JObj (dict_set ''versions'' (JArr (JObj (version_entry v) # ex))
                    (dict_update d (plugin p))) # post
     \<and> (\<forall>x \<in> set pre. other_plugin (guid p) x)
     \<and> dict_get (dict_set ''versions'' (JArr (JObj (version_entry v) # ex))
                    (dict_update d (plugin p))) ''guid'' = Some (JStr (guid p))
     \<and> dict_get (dict_set ''versions'' (JArr (JObj (version_entry v) # ex))
                    (dict_update d (plugin p))) ''versions''
         = Some (JArr (JObj (version_entry v) # ex))
     \<and> (\<forall>r \<in> set ex. version_value r \<noteq> Some (JStr (version v)))"
    by (simp add: dict_get_set plugin_get_fields)
  then show ?thesis by blast
qed

text \<open>Facts about the example data.\<close>

lemma example_facts:
  "other_plugin (guid sub_plugin) entry_A"
  "other_plugin (guid sub_plugin) entry_C"
  "dict_get dict_B ''guid'' = Some (JStr (guid sub_plugin))"
  "dict_get dict_B ''versions'' = Some (JArr [rec_v2, rec_v1])"
  "is_dict rec_v1" "is_dict rec_v2" "is_dict rec_unversioned"
  "version_value rec_v1 = Some (JStr (version sub_version))"
  "version_value rec_v2 = Some (JStr ''2.0'')"
  "version_value rec_unversioned = None"
  "dict_get dict_bare ''guid'' = Some (JStr (guid sub_plugin))"
  "dict_get dict_bare ''versions'' = None"
  "dict_get dict_mixed ''guid'' = Some (JStr (guid sub_plugin))"
  "dict_get dict_mixed ''versions'' = Some (JArr [rec_unversioned, rec_v1])"
  by (simp_all add: other_plugin_def is_dict_def version_value_def dict_get_def
      sub_plugin_def sub_version_def entry_A_def entry_C_def dict_B_def dict_bare_def
      dict_mixed_def rec_v1_def rec_v2_def rec_unversioned_def)

lemma example_versions_ok: "versions_ok dict_B"
  by (simp add: versions_ok_def example_facts)

section \<open>Properties of the merge\<close>

text \<open>
  Claim C1. In a manifest \<open>pre @ [B] @ post\<close> where the entries of \<open>pre\<close> belong to other
  plugins, \<open>B\<close> carries the submitted guid and its \<open>versions\<close> field is well formed, the
  merge returns \<open>pre @ [B'] @ post\<close>: the first matching entry is changed in its place and
  every other entry is returned as it was. \<open>B'\<close> is \<open>B\<close> after the descriptor overwrite
  with \<open>versions\<close> reassigned; the overwrite itself leaves \<open>versions\<close> as it found it, and
  the seven descriptor fields of \<open>B'\<close> hold the submitted values.
\<close>

theorem guid_match_updates_in_place:
  assumes pre: "\<forall>x \<in> set pre. other_plugin (guid p) x"
    and match: "dict_get d ''guid'' = Some (JStr (guid p))"
    and vers: "versions_ok d"
  shows "\<exists>d' vs'.
      merge_manifest p v (pre @ JObj d # post) = Inr (pre @ JObj d' # post)
    \<and> d' = dict_set ''versions'' (JArr vs') (dict_update d (plugin p))
    \<and> dict_get (dict_update d (plugin p)) ''versions'' = dict_get d ''versions''
    \<and> dict_get d' ''name'' = Some (JStr (name p))
    \<and> dict_get d' ''guid'' = Some (JStr (guid p))
    \<and> dict_get d' ''overview'' = Some (JStr (overview p))
    \<and> dict_get d' ''description'' = Some (JStr (description p))
    \<and> dict_get d' ''category'' = Some (JStr (category p))
    \<and> dict_get d' ''owner'' = Some (JStr (owner p))
    \<and> dict_get d' ''imageUrl'' = Some (JStr (imageUrl p))"
proof -
  from update_entry_ok [OF vers] obtain vs' where
    u: "update_entry p v (JObj d) =
          Inr (JObj (dict_set ''versions'' (JArr vs') (dict_update d (plugin p))))"
    by blast
  have m: "merge_manifest p v (pre @ JObj d # post) =
      Inr (pre @ JObj (dict_set ''versions'' (JArr vs') (dict_update d (plugin p))) # post)"
    by (simp add: merge_match [OF pre match] u)
  show ?thesis
    by (rule exI [of _ "dict_set ''versions'' (JArr vs') (dict_update d (plugin p))"],
        rule exI [of _ vs'])
       (simp add: m dict_get_set plugin_get_fields plugin_get_versions)
qed

theorem guid_match_updates_in_place_witness:
  "other_plugin (guid sub_plugin) entry_A
 \<and> dict_get dict_B ''guid'' = Some (JStr (guid sub_plugin))
 \<and> versions_ok dict_B
 \<and> (\<exists>d' vs'.
      merge_manifest sub_plugin sub_version [entry_A, JObj dict_B, entry_C]
        = Inr [entry_A, JObj d', entry_C]
    \<and> d' = dict_set ''versions'' (JArr vs') (dict_update dict_B (plugin sub_plugin))
    \<and> dict_get (dict_update dict_B (plugin sub_plugin)) ''versions'' = dict_get dict_B ''versions''
    \<and> dict_get d' ''name'' = Some (JStr (name sub_plugin))
    \<and> dict_get d' ''guid'' = Some (JStr (guid sub_plugin))
    \<and> dict_get d' ''overview'' = Some (JStr (overview sub_plugin))
    \<and> dict_get d' ''description'' = Some (JStr (description sub_plugin))
    \<and> dict_get d' ''category'' = Some (JStr (category sub_plugin))
    \<and> dict_get d' ''owner'' = Some (JStr (owner sub_plugin))
    \<and> dict_get d' ''imageUrl'' = Some (JStr (imageUrl sub_plugin)))"
proof -
  have h1: "\<forall>x \<in> set [entry_A]. other_plugin (guid sub_plugin) x"
    by (simp add: example_facts)
  have h2: "dict_get dict_B ''guid'' = Some (JStr (guid sub_plugin))"
    by (rule example_facts)
  have h3: "versions_ok dict_B" by (rule example_versions_ok)
  from guid_match_updates_in_place [OF h1 h2 h3, of sub_version "[entry_C]"]
  show ?thesis by (simp add: example_facts example_versions_ok)
qed

text \<open>
  Claim C2. When the matched entry has a list of version records, its new \<open>versions\<close> is
  the new record followed by the old list without the records whose \<open>version\<close> is the
  submitted one; the others keep their order and content. (The example below is the
  list \<open>[v2, v1]\<close> and a new submission of \<open>v1\<close>: the result is \<open>[v1 (new), v2]\<close>.)
\<close>

theorem new_version_prepended:
  assumes pre: "\<forall>x \<in> set pre. other_plugin (guid p) x"
    and match: "dict_get d ''guid'' = Some (JStr (guid p))"
    and vers: "dict_get d ''versions'' = Some (JArr vs)"
    and recs: "\<forall>r \<in> set vs. is_dict r"
  shows "\<exists>d'.
      merge_manifest p v (pre @ JObj d # post) = Inr (pre @ JObj d' # post)
    \<and> dict_get d' ''versions'' =
        Some (JArr (JObj (version_entry v) #
                    filter (\<lambda>r. version_value r \<noteq> Some (JStr (version v))) vs))"
  by (simp add: merge_match [OF pre match] update_entry_list [OF vers recs] dict_get_set)

theorem new_version_prepended_witness:
  "dict_get dict_B ''versions'' = Some (JArr [rec_v2, rec_v1])
 \<and> rec_v1 \<noteq> JObj (version_entry sub_version)
 \<and> (\<exists>d'.
      merge_manifest sub_plugin sub_version [entry_A, JObj dict_B, entry_C]
        = Inr [entry_A, JObj d', entry_C]
    \<and> dict_get d' ''versions'' = Some (JArr [JObj (version_entry sub_version), rec_v2]))"
proof -
  have h1: "\<forall>x \<in> set [entry_A]. other_plugin (guid sub_plugin) x"
    by (simp add: example_facts)
  have h2: "dict_get dict_B ''guid'' = Some (JStr (guid sub_plugin))"
    by (rule example_facts)
  have h3: "dict_get dict_B ''versions'' = Some (JArr [rec_v2, rec_v1])"
    by (rule example_facts)
  have h4: "\<forall>r \<in> set [rec_v2, rec_v1]. is_dict r"
    by (simp add: example_facts)
  have old: "rec_v1 \<noteq> JObj (version_entry sub_version)"
    by (simp add: rec_v1_def version_entry_def)
  have two: "Some (JStr ''2.0'') \<noteq> Some (JStr (version sub_version))"
    by (simp add: sub_version_def)
  from new_version_prepended [OF h1 h2 h3 h4, of sub_version "[entry_C]"] h3 old two
  show ?thesis by (simp add: example_facts)
qed

text \<open>
  Claim C3. When every entry of the manifest belongs to another plugin (the empty
  manifest included), the merge returns the manifest with one entry appended. The new
  entry has eight keys: the seven descriptor keys with the submitted values, and
  \<open>versions\<close> with a list of one record, whose five keys have the submitted version
  values. The entries that were there are returned as they were.
\<close>

theorem new_plugin_appended:
  assumes "\<forall>x \<in> set manifest. other_plugin (guid p) x"
  shows "merge_manifest p v manifest =
     Inr (manifest @
       [JObj
          [(''name'', JStr (name p)),
           (''guid'', JStr (guid p)),
           (''overview'', JStr (overview p)),
           (''description'', JStr (description p)),
           (''category'', JStr (category p)),
           (''owner'', JStr (owner p)),
           (''imageUrl'', JStr (imageUrl p)),
           (''versions'',
            JArr
              [JObj
                 [(''version'', JStr (version v)),
                  (''targetAbi'', JStr (targetAbi v)),
                  (''sourceUrl'', JStr (sourceUrl v)),
                  (''checksum'', JStr (checksum v)),
                  (''timestamp'', JStr (timestamp v))]])]])"
proof -
  have "scan p v manifest = Inr None" using assms by (simp add: scan_None)
  then show ?thesis
    by (simp add: merge_manifest_def plugin_set_versions) (simp add: plugin_def version_entry_def)
qed

theorem new_plugin_appended_witness:
  "merge_manifest sub_plugin sub_version [] =
     Inr [JObj
            [(''name'', JStr ''JellyTV''), (''guid'', JStr ''g1''), (''overview'', JStr ''ov''),
             (''description'', JStr ''de''), (''category'', JStr ''tv''),
             (''owner'', JStr ''me''), (''imageUrl'', JStr ''img''),
             (''versions'',
              JArr [JObj [(''version'', JStr ''1.0''), (''targetAbi'', JStr ''10.9''),
                          (''sourceUrl'', JStr ''url''), (''checksum'', JStr ''new''),
                          (''timestamp'', JStr ''now'')]])]]
 \<and> other_plugin (guid sub_plugin) entry_A
 \<and> other_plugin (guid sub_plugin) entry_C
 \<and> merge_manifest sub_plugin sub_version [entry_A, entry_C] =
     Inr [entry_A, entry_C,
          JObj
            [(''name'', JStr ''JellyTV''), (''guid'', JStr ''g1''), (''overview'', JStr ''ov''),
             (''description'', JStr ''de''), (''category'', JStr ''tv''),
             (''owner'', JStr ''me''), (''imageUrl'', JStr ''img''),
             (''versions'',
              JArr [JObj [(''version'', JStr ''1.0''), (''targetAbi'', JStr ''10.9''),
                          (''sourceUrl'', JStr ''url''), (''checksum'', JStr ''new''),
                          (''timestamp'', JStr ''now'')]])]]"
proof -
  have h0: "\<forall>x \<in> set []. other_plugin (guid sub_plugin) x" by simp
  have h1: "\<forall>x \<in> set [entry_A, entry_C]. other_plugin (guid sub_plugin) x"
    by (simp add: example_facts)
  have f: "name sub_plugin = ''JellyTV''" "guid sub_plugin = ''g1''"
    "overview sub_plugin = ''ov''" "description sub_plugin = ''de''"
    "category sub_plugin = ''tv''" "owner sub_plugin = ''me''" "imageUrl sub_plugin = ''img''"
    "version sub_version = ''1.0''" "targetAbi sub_version = ''10.9''"
    "sourceUrl sub_version = ''url''" "checksum sub_version = ''new''"
    "timestamp sub_version = ''now''"
    by (simp_all add: sub_plugin_def sub_version_def)
  have a: "other_plugin ''g1'' entry_A" "other_plugin ''g1'' entry_C"
    using example_facts(1,2) by (simp_all only: f)
  from new_plugin_appended [OF h0, of sub_version] new_plugin_appended [OF h1, of sub_version]
  show ?thesis by (simp add: f a)
qed

text \<open>
  Claim C6. A merge that returned a manifest returns the same manifest when it is run on
  that manifest again with the same submission. The result has an entry for the
  submitted guid, the first with that guid, and the \<open>versions\<close> list of this entry has
  exactly one record with the submitted version.
\<close>

theorem merge_idempotent:
  assumes "merge_manifest p v m = Inr m1"
  shows "merge_manifest p v m1 = Inr m1
     \<and> (\<exists>pre d post vs. m1 = pre @ JObj d # post
          \<and> (\<forall>x \<in> set pre. other_plugin (guid p) x)
          \<and> dict_get d ''guid'' = Some (JStr (guid p))
          \<and> dict_get d ''versions'' = Some (JArr vs)
          \<and> length (filter (\<lambda>r. version_value r = Some (JStr (version v))) vs) = 1)"
proof -
  from merged_entry [OF assms] obtain pre d post ex where
    e: "m1 = pre @ JObj d # post" "\<forall>x \<in> set pre. other_plugin (guid p) x"
       "dict_get d ''guid'' = Some (JStr (guid p))"
       "dict_get d ''versions'' = Some (JArr (JObj (version_entry v) # ex))"
       "\<forall>r \<in> set ex. version_value r \<noteq> Some (JStr (version v))"
    by blast
  from e(5) have "filter (\<lambda>r. version_value r = Some (JStr (version v))) ex = []"
    by (simp add: filter_empty_conv)
  then have "length (filter (\<lambda>r. version_value r = Some (JStr (version v)))
      (JObj (version_entry v) # ex)) = 1"
    by (simp add: version_value_entry)
  with e(1-4) have "\<exists>pre d post vs. m1 = pre @ JObj d # post
          \<and> (\<forall>x \<in> set pre. other_plugin (guid p) x)
          \<and> dict_get d ''guid'' = Some (JStr (guid p))
          \<and> dict_get d ''versions'' = Some (JArr vs)
          \<and> length (filter (\<lambda>r. version_value r = Some (JStr (version v))) vs) = 1"
    by blast
  with merge_twice [OF assms] show ?thesis by simp
qed

theorem merge_idempotent_witness:
  "\<exists>m1. merge_manifest sub_plugin sub_version [entry_A, JObj dict_B, entry_C] = Inr m1
     \<and> merge_manifest sub_plugin sub_version m1 = Inr m1
     \<and> (\<exists>pre d post vs. m1 = pre @ JObj d # post
          \<and> list_all (other_plugin (guid sub_plugin)) pre
          \<and> dict_get d ''guid'' = Some (JStr (guid sub_plugin))
          \<and> dict_get d ''versions'' = Some (JArr vs)
          \<and> length (filter (\<lambda>r. version_value r = Some (JStr (version sub_version))) vs) = 1)"
proof -
  have h1: "\<forall>x \<in> set [entry_A]. other_plugin (guid sub_plugin) x"
    by (simp add: example_facts)
  from update_entry_ok [OF example_versions_ok, of sub_plugin sub_version]
  obtain x' where "update_entry sub_plugin sub_version (JObj dict_B) = Inr x'"
    by blast
  then have m: "merge_manifest sub_plugin sub_version [entry_A, JObj dict_B, entry_C]
      = Inr [entry_A, x', entry_C]"
    using merge_match [OF h1 example_facts(3), of sub_version "[entry_C]"] by simp
  from merge_idempotent [OF m] m show ?thesis
    by (simp add: list_all_iff)
qed

text \<open>
  Claim C8. If in every entry of the manifest no version value occurs twice in the
  \<open>versions\<close> list, the same holds of every entry of the manifest the merge returns.
\<close>

theorem merge_keeps_versions_unique:
  assumes m: "merge_manifest p v manifest = Inr manifest'"
    and inv: "\<forall>x \<in> set manifest. unique_versions x"
  shows "\<forall>x \<in> set manifest'. unique_versions x"
  using merge_cases [OF m]
proof
  assume a: "scan p v manifest = Inr None
      \<and> manifest' = manifest @ [JObj (plugin p @ [(''versions'', JArr [JObj (version_entry v)])])]"
  have "versions_of (JObj (plugin p @ [(''versions'', JArr [JObj (version_entry v)])]))
      = [JObj (version_entry v)]"
    by (simp add: versions_of_def plugin_def dict_get_def)
  then have "unique_versions (JObj (plugin p @ [(''versions'', JArr [JObj (version_entry v)])]))"
    by (simp add: unique_versions_def version_value_entry)
  with a inv show ?thesis by simp
next
  assume "scan p v manifest = Inr (Some manifest')"
  from scan_shape [OF this] obtain pre x x' post where
    s: "manifest = pre @ x # post" "manifest' = pre @ x' # post"
       "update_entry p v x = Inr x'"
    by blast
  from inv s(1) have "unique_versions x" by simp
  then have "unique_versions x'" by (rule update_entry_unique [OF s(3)])
  with inv s(1,2) show ?thesis by simp
qed

theorem merge_keeps_versions_unique_witness:
  "list_all unique_versions [entry_A, JObj dict_B, entry_C]
 \<and> (\<exists>m1. merge_manifest sub_plugin sub_version [entry_A, JObj dict_B, entry_C] = Inr m1
       \<and> list_all unique_versions m1)"
proof -
  have h1: "\<forall>x \<in> set [entry_A]. other_plugin (guid sub_plugin) x"
    by (simp add: example_facts)
  have inv: "\<forall>x \<in> set [entry_A, JObj dict_B, entry_C]. unique_versions x"
    by (simp add: unique_versions_def versions_of_def example_facts)
       (simp add: entry_A_def entry_C_def dict_get_def sub_version_def)
  from update_entry_ok [OF example_versions_ok, of sub_plugin sub_version]
  obtain x' where "update_entry sub_plugin sub_version (JObj dict_B) = Inr x'"
    by blast
  then have m: "merge_manifest sub_plugin sub_version [entry_A, JObj dict_B, entry_C]
      = Inr [entry_A, x', entry_C]"
    using merge_match [OF h1 example_facts(3), of sub_version "[entry_C]"] by simp
  from merge_keeps_versions_unique [OF m inv] m inv show ?thesis
    by (simp add: list_all_iff)
qed

text \<open>
  Claim C9. When the merge returns on a manifest \<open>pre @ [B] @ post\<close> with \<open>B\<close> the first
  entry of the submitted guid, the entry \<open>B'\<close> in its place has, under every key other
  than the seven descriptor keys and \<open>versions\<close>, what \<open>B\<close> has there (a value, or none),
  and the keys of \<open>B\<close> are the first keys of \<open>B'\<close>, in the order they had.
\<close>

theorem extra_keys_preserved:
  assumes pre: "\<forall>x \<in> set pre. other_plugin (guid p) x"
    and match: "dict_get d ''guid'' = Some (JStr (guid p))"
    and m: "merge_manifest p v (pre @ JObj d # post) = Inr manifest'"
  shows "\<exists>d'. manifest' = pre @ JObj d' # post
     \<and> (\<forall>k. k \<notin> {''name'', ''guid'', ''overview'', ''description'', ''category'', ''owner'',
                  ''imageUrl'', ''versions''} \<longrightarrow> dict_get d' k = dict_get d k)
     \<and> take (length d) (map fst d') = map fst d"
proof -
  from m obtain x' where u: "update_entry p v (JObj d) = Inr x'"
    and m': "manifest' = pre @ x' # post"
    by (auto simp: merge_match [OF pre match] split: sum.splits)
  from update_entry_shape [OF u] obtain ex where
    x': "x' = JObj (dict_set ''versions'' (JArr (JObj (version_entry v) # ex))
                    (dict_update d (plugin p)))"
    by auto
  define d1 where "d1 = dict_update d (plugin p)"
  define d' where "d' = dict_set ''versions'' (JArr (JObj (version_entry v) # ex)) d1"
  have len: "length d \<le> length d1"
    using take_keys_dict_update [of d "plugin p"]
    by (metis d1_def length_map length_take min.absorb_iff1 min.commute)
  have "take (length d) (map fst d') = take (length d) (take (length d1) (map fst d'))"
    using len by (simp add: min_def)
  also have "\<dots> = take (length d) (map fst d1)"
    unfolding d'_def by (simp only: take_keys_dict_set)
  also have "\<dots> = map fst d"
    unfolding d1_def by (rule take_keys_dict_update)
  finally have keys: "take (length d) (map fst d') = map fst d" .
  have frame: "\<forall>k. k \<notin> {''name'', ''guid'', ''overview'', ''description'', ''category'',
      ''owner'', ''imageUrl'', ''versions''} \<longrightarrow> dict_get d' k = dict_get d k"
    unfolding d'_def d1_def by (simp add: dict_get_set plugin_get_other)
  from m' x' have "manifest' = pre @ JObj d' # post" by (simp add: d'_def d1_def)
  with frame keys show ?thesis by blast
qed

theorem extra_keys_preserved_witness:
  "\<exists>d'. merge_manifest sub_plugin sub_version [entry_A, JObj dict_B, entry_C]
           = Inr [entry_A, JObj d', entry_C]
     \<and> dict_get dict_B ''stars'' = Some (JInt 5)
     \<and> dict_get d' ''stars'' = Some (JInt 5)
     \<and> take 4 (map fst d') = [''guid'', ''name'', ''stars'', ''versions'']"
proof -
  have h1: "\<forall>x \<in> set [entry_A]. other_plugin (guid sub_plugin) x"
    by (simp add: example_facts)
  from update_entry_ok [OF example_versions_ok, of sub_plugin sub_version]
  obtain x' where "update_entry sub_plugin sub_version (JObj dict_B) = Inr x'"
    by blast
  then have m: "merge_manifest sub_plugin sub_version ([entry_A] @ JObj dict_B # [entry_C])
      = Inr [entry_A, x', entry_C]"
    using merge_match [OF h1 example_facts(3), of sub_version "[entry_C]"] by simp
  from extra_keys_preserved [OF h1 example_facts(3) m] obtain d' where
    d': "[entry_A, x', entry_C] = [entry_A] @ JObj d' # [entry_C]"
        "\<forall>k. k \<notin> {''name'', ''guid'', ''overview'', ''description'', ''category'', ''owner'',
                  ''imageUrl'', ''versions''} \<longrightarrow> dict_get d' k = dict_get dict_B k"
        "take (length dict_B) (map fst d') = map fst dict_B"
    by blast
  from d'(2) have "dict_get d' ''stars'' = dict_get dict_B ''stars''" by simp
  moreover have "dict_get dict_B ''stars'' = Some (JInt 5)"
    by (simp add: dict_B_def dict_get_def)
  moreover have "length dict_B = 4" "map fst dict_B = [''guid'', ''name'', ''stars'', ''versions'']"
    by (simp_all add: dict_B_def)
  ultimately show ?thesis using m d'(1,3) by simp
qed

text \<open>
  Claim C10. When the matched entry has no \<open>versions\<close> key, its new \<open>versions\<close> is the
  list of the new record alone. When it has a list of records, the records without a
  \<open>version\<close> key are all in the new list, after the new record and in their old order.
\<close>

theorem missing_versions_and_version_fields:
  assumes pre: "\<forall>x \<in> set pre. other_plugin (guid p) x"
    and match: "dict_get d ''guid'' = Some (JStr (guid p))"
  shows "(dict_get d ''versions'' = None \<longrightarrow>
            (\<exists>d'. merge_manifest p v (pre @ JObj d # post) = Inr (pre @ JObj d' # post)
                \<and> dict_get d' ''versions'' = Some (JArr [JObj (version_entry v)])))
       \<and> (\<forall>vs. dict_get d ''versions'' = Some (JArr vs) \<and> (\<forall>r \<in> set vs. is_dict r) \<longrightarrow>
            (\<exists>d' ex. merge_manifest p v (pre @ JObj d # post) = Inr (pre @ JObj d' # post)
                \<and> dict_get d' ''versions'' = Some (JArr (JObj (version_entry v) # ex))
                \<and> filter (\<lambda>r. version_value r = None) ex
                    = filter (\<lambda>r. version_value r = None) vs))"
proof (intro conjI impI allI)
  assume "dict_get d ''versions'' = None"
  then show "\<exists>d'. merge_manifest p v (pre @ JObj d # post) = Inr (pre @ JObj d' # post)
                \<and> dict_get d' ''versions'' = Some (JArr [JObj (version_entry v)])"
    by (simp add: merge_match [OF pre match] update_entry_absent dict_get_set)
next
  fix vs
  assume "dict_get d ''versions'' = Some (JArr vs) \<and> (\<forall>r \<in> set vs. is_dict r)"
  then have vers: "dict_get d ''versions'' = Some (JArr vs)"
    and recs: "\<forall>r \<in> set vs. is_dict r"
    by simp_all
  have "filter (\<lambda>r. version_value r = None)
          (filter (\<lambda>r. version_value r \<noteq> Some (JStr (version v))) vs)
        = filter (\<lambda>r. version_value r = None) vs"
    by (induction vs) auto
  then show "\<exists>d' ex. merge_manifest p v (pre @ JObj d # post) = Inr (pre @ JObj d' # post)
                \<and> dict_get d' ''versions'' = Some (JArr (JObj (version_entry v) # ex))
                \<and> filter (\<lambda>r. version_value r = None) ex
                    = filter (\<lambda>r. version_value r = None) vs"
    by (simp add: merge_match [OF pre match] update_entry_list [OF vers recs] dict_get_set)
qed

theorem missing_versions_and_version_fields_witness:
  "dict_get dict_bare ''versions'' = None
 \<and> (\<exists>d'. merge_manifest sub_plugin sub_version [entry_A, JObj dict_bare, entry_C]
            = Inr [entry_A, JObj d', entry_C]
        \<and> dict_get d' ''versions'' = Some (JArr [JObj (version_entry sub_version)]))
 \<and> dict_get dict_mixed ''versions'' = Some (JArr [rec_unversioned, rec_v1])
 \<and> version_value rec_unversioned = None
 \<and> (\<exists>d' ex. merge_manifest sub_plugin sub_version [entry_A, JObj dict_mixed, entry_C]
            = Inr [entry_A, JObj d', entry_C]
        \<and> dict_get d' ''versions'' = Some (JArr (JObj (version_entry sub_version) # ex))
        \<and> filter (\<lambda>r. version_value r = None) ex = [rec_unversioned])"
proof -
  have h1: "\<forall>x \<in> set [entry_A]. other_plugin (guid sub_plugin) x"
    by (simp add: example_facts)
  have ne: "Some (JStr (version sub_version)) \<noteq> None" by simp
  from missing_versions_and_version_fields
         [OF h1 example_facts(11), of sub_version "[entry_C]"]
       missing_versions_and_version_fields
         [OF h1 example_facts(13), of sub_version "[entry_C]"]
  show ?thesis by (simp add: example_facts)
qed

section \<open>Loading the manifest\<close>

text \<open>
  Claim C4, as the code has it. The load returns the empty list when nothing is at the
  path, when the file has length zero and when \<open>json.load\<close> raises \<open>JSONDecodeError\<close>;
  any other exception raised on a file that is not empty is raised by the load; a list
  is returned as it is and any other value as the one element of a list.
\<close>

theorem load_manifest_cases:
  "(fs p = Absent \<longrightarrow> load_manifest fs p = Inr [])
 \<and> (\<forall>r. fs p = Present 0 r \<longrightarrow> load_manifest fs p = Inr [])
 \<and> (\<forall>n. 0 < n \<and> fs p = Present n (Inl JSONDecodeError) \<longrightarrow> load_manifest fs p = Inr [])
 \<and> (\<forall>n e. 0 < n \<and> e \<noteq> JSONDecodeError \<and> fs p = Present n (Inl e) \<longrightarrow>
        load_manifest fs p = Inl e)
 \<and> (\<forall>n xs. 0 < n \<and> fs p = Present n (Inr (JArr xs)) \<longrightarrow> load_manifest fs p = Inr xs)
 \<and> (\<forall>n x. 0 < n \<and> (\<forall>xs. x \<noteq> JArr xs) \<and> fs p = Present n (Inr x) \<longrightarrow>
        load_manifest fs p = Inr [x])"
proof (intro conjI allI impI)
  fix n e
  assume "0 < n \<and> e \<noteq> JSONDecodeError \<and> fs p = Present n (Inl e)"
  then show "load_manifest fs p = Inl e" by (cases e) simp_all
next
  fix n x
  assume "0 < n \<and> (\<forall>xs. x \<noteq> JArr xs) \<and> fs p = Present n (Inr x)"
  then show "load_manifest fs p = Inr [x]" by (cases x) simp_all
qed simp_all

theorem load_manifest_cases_witness:
  "load_manifest (one_file Absent) (Path ''manifest.json'') = Inr []
 \<and> load_manifest (one_file (Present 0 (Inl OSError))) (Path ''manifest.json'') = Inr []
 \<and> load_manifest (one_file (Present 9 (Inl JSONDecodeError))) (Path ''manifest.json'') = Inr []
 \<and> load_manifest (one_file (Present 9 (Inl RecursionError))) (Path ''manifest.json'')
      = Inl RecursionError
 \<and> load_manifest (one_file (Present 9 (Inr (JArr [entry_A, entry_C])))) (Path ''manifest.json'')
      = Inr [entry_A, entry_C]
 \<and> load_manifest (one_file (Present 9 (Inr entry_A))) (Path ''manifest.json'') = Inr [entry_A]"
proof -
  have at: "one_file node (Path ''manifest.json'') = node" for node
    by (simp add: one_file_def)
  have obj: "\<forall>xs. entry_A \<noteq> JArr xs" by (simp add: entry_A_def)
  from load_manifest_cases [of "one_file Absent" "Path ''manifest.json''"]
       load_manifest_cases [of "one_file (Present 0 (Inl OSError))" "Path ''manifest.json''"]
       load_manifest_cases [of "one_file (Present 9 (Inl JSONDecodeError))" "Path ''manifest.json''"]
       load_manifest_cases [of "one_file (Present 9 (Inl RecursionError))" "Path ''manifest.json''"]
       load_manifest_cases [of "one_file (Present 9 (Inr (JArr [entry_A, entry_C])))"
         "Path ''manifest.json''"]
       load_manifest_cases [of "one_file (Present 9 (Inr entry_A))" "Path ''manifest.json''"]
       obj
  show ?thesis by (simp add: at)
qed

text \<open>
  The claim as the specification words it (the empty list whenever parsing fails, for any
  reason, and no error raised) does not hold: on a file that is not valid UTF-8 the load
  raises.
\<close>

theorem load_manifest_raises:
  "load_manifest (one_file (Present 1 (Inl UnicodeDecodeError))) (Path ''manifest.json'')
     = Inl UnicodeDecodeError
 \<and> load_manifest (one_file (Present 1 (Inl UnicodeDecodeError))) (Path ''manifest.json'')
     \<noteq> Inr []"
  by (simp add: one_file_def)

section \<open>Missing variables\<close>



section \<open>Writing the manifest\<close>

lemma split_slash_no_slash: "x \<in> set (split_slash s) \<Longrightarrow> CHR ''/'' \<notin> set x"
proof (induction s arbitrary: x)
  case Nil
  then show ?case by simp
next
  case (Cons c s)
  then show ?case
    by (cases "split_slash s") (auto split: if_splits)
qed

lemma split_slash_plain: "CHR ''/'' \<notin> set x \<Longrightarrow> split_slash x = [x]"
  by (induction x) auto

lemma Path_parts_no_slash: "x \<in> set (parts (Path s)) \<Longrightarrow> CHR ''/'' \<notin> set x"
  by (auto simp: Path_def dest: split_slash_no_slash)

lemma path_name_no_slash: "CHR ''/'' \<notin> set (path_name (Path s))"
  using Path_parts_no_slash [of "last (parts (Path s))" s]
  by (auto simp: path_name_def)

text \<open>A name with \<open>.tmp\<close> after it is one part of a relative path.\<close>

lemma Path_tmp:
  assumes "CHR ''/'' \<notin> set x"
  shows "Path (x @ ''.tmp'') = \<lparr>root = [], parts = [x @ ''.tmp'']\<rparr>"
proof -
  have "CHR ''/'' \<notin> set (x @ ''.tmp'')" using assms by simp
  then have sp: "split_slash (x @ ''.tmp'') = [x @ ''.tmp'']" by (rule split_slash_plain)
  have tw: "takeWhile (\<lambda>c. c = CHR ''/'') (x @ ''.tmp'') = []"
    using assms by (cases x) auto
  have ne: "x @ ''.tmp'' \<noteq> ''.''"
    by (cases x) auto
  show ?thesis
    unfolding Path_def sp tw using ne by simp
qed

lemma tmp_path_eq:
  "joinpath (path_parent (Path s)) (path_name (Path s) @ ''.tmp'') =
     (path_parent (Path s))
       \<lparr>parts := parts (path_parent (Path s)) @ [path_name (Path s) @ ''.tmp'']\<rparr>"
  by (simp add: joinpath_def Path_tmp [OF path_name_no_slash])

lemma tmp_path_parent:
  "path_parent (joinpath (path_parent (Path s)) (path_name (Path s) @ ''.tmp'')) =
     path_parent (Path s)"
  by (simp add: tmp_path_eq) (simp add: path_parent_def)

lemma tmp_path_differs:
  "joinpath (path_parent (Path s)) (path_name (Path s) @ ''.tmp'') \<noteq> Path s"
proof
  assume "joinpath (path_parent (Path s)) (path_name (Path s) @ ''.tmp'') = Path s"
  then have "parts (joinpath (path_parent (Path s)) (path_name (Path s) @ ''.tmp''))
      = parts (Path s)"
    by simp
  then have eq: "parts (path_parent (Path s)) @ [path_name (Path s) @ ''.tmp''] = parts (Path s)"
    by (simp add: tmp_path_eq)
  show False
  proof (cases "parts (Path s) = []")
    case True
    with eq show False by simp
  next
    case False
    then have "parts (Path s) = butlast (parts (Path s)) @ [last (parts (Path s))]" by simp
    with eq False have "butlast (parts (Path s)) @ [last (parts (Path s)) @ ''.tmp'']
        = butlast (parts (Path s)) @ [last (parts (Path s))]"
      by (simp add: path_parent_def path_name_def)
    then show False by simp
  qed
qed

text \<open>With every variable set, a manifest loaded and merged, the rest is the write.\<close>

lemma main_persists:
  assumes "environ ''MANIFEST_PATH'' = Some s"
    and "environ ''NAME'' = Some (name p)" and "environ ''GUID'' = Some (guid p)"
    and "environ ''OVERVIEW'' = Some (overview p)"
    and "environ ''DESCRIPTION'' = Some (description p)"
    and "environ ''CATEGORY'' = Some (category p)" and "environ ''OWNER'' = Some (owner p)"
    and "environ ''IMAGE_URL'' = Some (imageUrl p)"
    and "environ ''VERSION'' = Some (version v)"
    and "environ ''TARGET_ABI'' = Some (targetAbi v)"
    and "environ ''DOWNLOAD_URL'' = Some (sourceUrl v)"
    and "environ ''CHECKSUM'' = Some (checksum v)"
    and "environ ''TIMESTAMP'' = Some (timestamp v)"
    and "load_manifest fs (Path s) = Inr manifest"
    and "merge_manifest p v manifest = Inr manifest'"
  shows "main os environ fs = persist os (Path s) manifest'"
proof -
  have p: "\<lparr>name = name p, guid = guid p, overview = overview p, description = description p,
      category = category p, owner = owner p, imageUrl = imageUrl p\<rparr> = p"
    by (cases p) simp
  have v: "\<lparr>version = version v, targetAbi = targetAbi v, sourceUrl = sourceUrl v,
      checksum = checksum v, timestamp = timestamp v\<rparr> = v"
    by (cases v) simp
  obtain out r where pr: "persist os (Path s) manifest' = (out, r)"
    by (cases "persist os (Path s) manifest'")
  show ?thesis
    unfolding main_def env_def bind_def lift_def Let_def
    by (simp only: assms p v pr option.case sum.case prod.case append_Nil)
qed

lemma persist_calls:
  "persist os (Path s) manifest =
     bind (call os (Mkdir (path_parent (Path s)))) (\<lambda>_.
     bind (with_open os (joinpath (path_parent (Path s)) (path_name (Path s) @ ''.tmp''))
             (bind (call os (Dump (joinpath (path_parent (Path s)) (path_name (Path s) @ ''.tmp''))
                              (JArr manifest) 2)) (\<lambda>_.
              call os (Write (joinpath (path_parent (Path s)) (path_name (Path s) @ ''.tmp''))
                         [CHR 0x0A])))) (\<lambda>_.
     call os (Replace (joinpath (path_parent (Path s)) (path_name (Path s) @ ''.tmp'')) (Path s))))"
  by (simp add: persist_def Let_def tmp_path_parent)

text \<open>
  Claim C7. Let every variable be set and the load and the merge return. The temporary
  file is \<open>name.tmp\<close> in the directory of the target and is not the target, and the process
  calls nothing but: \<open>mkdir\<close> of that directory, \<open>open\<close> of the temporary file for writing,
  \<open>json.dump\<close> of the whole merged manifest into it at indentation 2, the write of a
  newline after it, the close, and \<open>os.replace\<close> of the target by the temporary file.
  When all six return, they are made in this order, the process ends without an
  exception and the target has the new content: the dump followed by the newline. When
  one of them raises, the process ends with an exception and the target has the content
  it had at the start. In every file system of the run, whatever the calls answer, the
  target has the content it had at the start or the new content.
\<close>

theorem persist_through_temporary_file:
  assumes "environ ''MANIFEST_PATH'' = Some s"
    and "environ ''NAME'' = Some (name p)" and "environ ''GUID'' = Some (guid p)"
    and "environ ''OVERVIEW'' = Some (overview p)"
    and "environ ''DESCRIPTION'' = Some (description p)"
    and "environ ''CATEGORY'' = Some (category p)" and "environ ''OWNER'' = Some (owner p)"
    and "environ ''IMAGE_URL'' = Some (imageUrl p)"
    and "environ ''VERSION'' = Some (version v)"
    and "environ ''TARGET_ABI'' = Some (targetAbi v)"
    and "environ ''DOWNLOAD_URL'' = Some (sourceUrl v)"
    and "environ ''CHECKSUM'' = Some (checksum v)"
    and "environ ''TIMESTAMP'' = Some (timestamp v)"
    and "load_manifest fs (Path s) = Inr manifest"
    and "merge_manifest p v manifest = Inr manifest'"
  shows
   "let target = Path s;
        tmp = joinpath (path_parent target) (path_name target @ ''.tmp'');
        new = [Encoded (JArr manifest') 2, Text [CHR 0x0A]];
        calls = [Mkdir (path_parent target), OpenWrite tmp, Dump tmp (JArr manifest') 2,
                 Write tmp [CHR 0x0A], Close tmp, Replace tmp target];
        run = main os environ fs
    in path_parent tmp = path_parent target
     \<and> tmp \<noteq> target
     \<and> (\<forall>ev \<in> set (fst run). event_call ev \<in> set calls)
     \<and> ((\<forall>c \<in> set calls. os c = None) \<longrightarrow>
           run = (map Done calls, Inr ()) \<and> last (states fl (fst run)) target = Some new)
     \<and> ((\<exists>c \<in> set calls. os c \<noteq> None) \<longrightarrow>
           (\<exists>e. snd run = Inl e) \<and> last (states fl (fst run)) target = fl target)
     \<and> (\<forall>st \<in> set (states fl (fst run)). st target = fl target \<or> st target = Some new)"
proof -
  define target where "target = Path s"
  define tmp where "tmp = joinpath (path_parent target) (path_name target @ ''.tmp'')"
  have par: "path_parent tmp = path_parent target"
    unfolding tmp_def target_def by (rule tmp_path_parent)
  have ne: "tmp \<noteq> target"
    unfolding tmp_def target_def by (rule tmp_path_differs)
  have run: "main os environ fs =
      bind (call os (Mkdir (path_parent target))) (\<lambda>_.
      bind (with_open os tmp
              (bind (call os (Dump tmp (JArr manifest') 2)) (\<lambda>_.
               call os (Write tmp [CHR 0x0A])))) (\<lambda>_.
      call os (Replace tmp target)))"
    unfolding tmp_def target_def main_persists [OF assms] by (rule persist_calls)
  have "path_parent tmp = path_parent target
     \<and> tmp \<noteq> target
     \<and> (\<forall>ev \<in> set (fst (main os environ fs)). event_call ev \<in>
           set [Mkdir (path_parent target), OpenWrite tmp, Dump tmp (JArr manifest') 2,
                Write tmp [CHR 0x0A], Close tmp, Replace tmp target])
     \<and> ((\<forall>c \<in> set [Mkdir (path_parent target), OpenWrite tmp, Dump tmp (JArr manifest') 2,
                     Write tmp [CHR 0x0A], Close tmp, Replace tmp target]. os c = None) \<longrightarrow>
           main os environ fs =
             (map Done [Mkdir (path_parent target), OpenWrite tmp, Dump tmp (JArr manifest') 2,
                        Write tmp [CHR 0x0A], Close tmp, Replace tmp target], Inr ())
         \<and> last (states fl (fst (main os environ fs))) target
             = Some [Encoded (JArr manifest') 2, Text [CHR 0x0A]])
     \<and> ((\<exists>c \<in> set [Mkdir (path_parent target), OpenWrite tmp, Dump tmp (JArr manifest') 2,
                     Write tmp [CHR 0x0A], Close tmp, Replace tmp target]. os c \<noteq> None) \<longrightarrow>
           (\<exists>e. snd (main os environ fs) = Inl e)
         \<and> last (states fl (fst (main os environ fs))) target = fl target)
     \<and> (\<forall>st \<in> set (states fl (fst (main os environ fs))).
           st target = fl target
         \<or> st target = Some [Encoded (JArr manifest') 2, Text [CHR 0x0A]])"
    (is ?goal)
  proof (cases "os (Mkdir (path_parent target))")
    case (Some e)
    then have r: "main os environ fs = ([Failed (Mkdir (path_parent target)) e], Inl e)"
      unfolding run by (simp add: bind_def call_def)
    show ?goal unfolding r using Some by (simp add: par ne)
  next
    case mk: None
    show ?goal
    proof (cases "os (OpenWrite tmp)")
      case (Some e)
      with mk have r: "main os environ fs =
          ([Done (Mkdir (path_parent target)), Failed (OpenWrite tmp) e], Inl e)"
        unfolding run by (simp add: bind_def call_def with_open_def)
      show ?goal unfolding r using Some by (simp add: par ne)
    next
      case op: None
      show ?goal
      proof (cases "os (Close tmp)")
        case cl: (Some e')
        show ?goal
        proof (cases "os (Dump tmp (JArr manifest') 2)")
          case (Some e)
          with mk op cl have r: "main os environ fs =
              ([Done (Mkdir (path_parent target)), Done (OpenWrite tmp),
                Failed (Dump tmp (JArr manifest') 2) e, Failed (Close tmp) e'], Inl e')"
            unfolding run by (simp add: bind_def call_def with_open_def)
          show ?goal unfolding r using cl by (simp add: par ne ne [symmetric] content_def)
        next
          case du: None
          show ?goal
          proof (cases "os (Write tmp [CHR 0x0A])")
            case (Some e)
            with mk op cl du have r: "main os environ fs =
                ([Done (Mkdir (path_parent target)), Done (OpenWrite tmp),
                  Done (Dump tmp (JArr manifest') 2), Failed (Write tmp [CHR 0x0A]) e,
                  Failed (Close tmp) e'], Inl e')"
              unfolding run by (simp add: bind_def call_def with_open_def)
            show ?goal unfolding r using cl by (simp add: par ne ne [symmetric] content_def)
          next
            case wr: None
            with mk op cl du have r: "main os environ fs =
                ([Done (Mkdir (path_parent target)), Done (OpenWrite tmp),
                  Done (Dump tmp (JArr manifest') 2), Done (Write tmp [CHR 0x0A]),
                  Failed (Close tmp) e'], Inl e')"
              unfolding run by (simp add: bind_def call_def with_open_def)
            show ?goal unfolding r using cl by (simp add: par ne ne [symmetric] content_def)
          qed
        qed
      next
        case cl: None
        show ?goal
        proof (cases "os (Dump tmp (JArr manifest') 2)")
          case (Some e)
          with mk op cl have r: "main os environ fs =
              ([Done (Mkdir (path_parent target)), Done (OpenWrite tmp),
                Failed (Dump tmp (JArr manifest') 2) e, Done (Close tmp)], Inl e)"
            unfolding run by (simp add: bind_def call_def with_open_def)
          show ?goal unfolding r using Some by (simp add: par ne ne [symmetric] content_def)
        next
          case du: None
          show ?goal
          proof (cases "os (Write tmp [CHR 0x0A])")
            case (Some e)
            with mk op cl du have r: "main os environ fs =
                ([Done (Mkdir (path_parent target)), Done (OpenWrite tmp),
                  Done (Dump tmp (JArr manifest') 2), Failed (Write tmp [CHR 0x0A]) e,
                  Done (Close tmp)], Inl e)"
              unfolding run by (simp add: bind_def call_def with_open_def)
            show ?goal unfolding r using Some by (simp add: par ne ne [symmetric] content_def)
          next
            case wr: None
            show ?goal
            proof (cases "os (Replace tmp target)")
              case (Some e)
              with mk op cl du wr have r: "main os environ fs =
                  ([Done (Mkdir (path_parent target)), Done (OpenWrite tmp),
                    Done (Dump tmp (JArr manifest') 2), Done (Write tmp [CHR 0x0A]),
                    Done (Close tmp), Failed (Replace tmp target) e], Inl e)"
                unfolding run by (simp add: bind_def call_def with_open_def)
              show ?goal unfolding r using Some
                by (simp add: par ne ne [symmetric] content_def)
            next
              case re: None
              with mk op cl du wr have r: "main os environ fs =
                  ([Done (Mkdir (path_parent target)), Done (OpenWrite tmp),
                    Done (Dump tmp (JArr manifest') 2), Done (Write tmp [CHR 0x0A]),
                    Done (Close tmp), Done (Replace tmp target)], Inr ())"
                unfolding run by (simp add: bind_def call_def with_open_def)
              show ?goal unfolding r using mk op cl du wr re
                by (simp add: par ne ne [symmetric] content_def)
            qed
          qed
        qed
      qed
    qed
  qed
  then show ?thesis
    unfolding Let_def target_def [symmetric] tmp_def [symmetric] .
qed

theorem persist_through_temporary_file_witness:
  "main willing_os full_environ no_fs =
     ([Done (Mkdir (Path ''dist'')),
       Done (OpenWrite (Path ''dist/manifest.json.tmp'')),
       Done (Dump (Path ''dist/manifest.json.tmp'') (JArr [new_entry]) 2),
       Done (Write (Path ''dist/manifest.json.tmp'') [CHR 0x0A]),
       Done (Close (Path ''dist/manifest.json.tmp'')),
       Done (Replace (Path ''dist/manifest.json.tmp'') (Path ''dist/manifest.json''))],
      Inr ())
 \<and> Path ''dist/manifest.json.tmp'' \<noteq> Path ''dist/manifest.json''
 \<and> last (states old_files (fst (main willing_os full_environ no_fs))) (Path ''dist/manifest.json'')
     = Some [Encoded (JArr [new_entry]) 2, Text [CHR 0x0A]]
 \<and> list_all
      (\<lambda>st. st (Path ''dist/manifest.json'') = old_files (Path ''dist/manifest.json'')
          \<or> st (Path ''dist/manifest.json'') = Some [Encoded (JArr [new_entry]) 2, Text [CHR 0x0A]])
      (states old_files (fst (main willing_os full_environ no_fs)))
 \<and> refusing_mkdir (Mkdir (Path ''dist'')) = Some OSError
 \<and> (\<exists>e. snd (main refusing_mkdir full_environ no_fs) = Inl e)
 \<and> last (states old_files (fst (main refusing_mkdir full_environ no_fs)))
      (Path ''dist/manifest.json'') = old_files (Path ''dist/manifest.json'')"
proof -
  have e: "full_environ ''MANIFEST_PATH'' = Some ''dist/manifest.json''"
    "full_environ ''NAME'' = Some (name sub_plugin)"
    "full_environ ''GUID'' = Some (guid sub_plugin)"
    "full_environ ''OVERVIEW'' = Some (overview sub_plugin)"
    "full_environ ''DESCRIPTION'' = Some (description sub_plugin)"
    "full_environ ''CATEGORY'' = Some (category sub_plugin)"
    "full_environ ''OWNER'' = Some (owner sub_plugin)"
    "full_environ ''IMAGE_URL'' = Some (imageUrl sub_plugin)"
    "full_environ ''VERSION'' = Some (version sub_version)"
    "full_environ ''TARGET_ABI'' = Some (targetAbi sub_version)"
    "full_environ ''DOWNLOAD_URL'' = Some (sourceUrl sub_version)"
    "full_environ ''CHECKSUM'' = Some (checksum sub_version)"
    "full_environ ''TIMESTAMP'' = Some (timestamp sub_version)"
    by (simp_all add: full_environ_def sub_plugin_def sub_version_def)
  have l: "load_manifest no_fs (Path ''dist/manifest.json'') = Inr []"
    by (simp add: no_fs_def)
  have m: "merge_manifest sub_plugin sub_version [] = Inr [new_entry]"
    by (simp add: merge_manifest_def plugin_set_versions new_entry_def plugin_def
        version_entry_def sub_plugin_def sub_version_def)
  have target: "Path ''dist/manifest.json'' = \<lparr>root = [], parts = [''dist'', ''manifest.json'']\<rparr>"
    by (simp add: Path_def)
  have dir: "Path ''dist'' = \<lparr>root = [], parts = [''dist'']\<rparr>"
    by (simp add: Path_def)
  have tmp: "Path ''dist/manifest.json.tmp'' = \<lparr>root = [], parts = [''dist'', ''manifest.json.tmp'']\<rparr>"
    by (simp add: Path_def)
  have suffix: "Path ''manifest.json.tmp'' = \<lparr>root = [], parts = [''manifest.json.tmp'']\<rparr>"
    by (simp add: Path_def)
  have p1: "path_parent (Path ''dist/manifest.json'') = Path ''dist''"
    by (simp add: target dir path_parent_def)
  have p2: "joinpath (Path ''dist'') (path_name (Path ''dist/manifest.json'') @ ''.tmp'')
      = Path ''dist/manifest.json.tmp''"
    by (simp add: target dir tmp suffix path_name_def joinpath_def)
  have ne: "Path ''dist/manifest.json'' \<noteq> Path ''dist/manifest.json.tmp''"
    by (simp add: target tmp)
  have w: "willing_os c = None" for c by (simp add: willing_os_def)
  have r: "refusing_mkdir (Mkdir d) = Some OSError" for d by (simp add: refusing_mkdir_def)
  from persist_through_temporary_file
         [where os = willing_os and fl = old_files, OF e l m]
       persist_through_temporary_file
         [where os = refusing_mkdir and fl = old_files, OF e l m]
  show ?thesis by (simp add: Let_def p1 p2 ne w r list_all_iff content_def)
qed

end
